theory Spec2Isabelle
  imports Main "HOL-Library.Word"
begin

section \<open>The encryption service of the server: data model\<close>

text \<open>
  The development embeds \<^verbatim>\<open>packages/server/src/services/encryption/index.ts\<close>.
  The service reaches three tables through repositories: \<^verbatim>\<open>encryption\<close> (the keys),
  \<^verbatim>\<open>credential\<close> and \<^verbatim>\<open>encryption_credential\<close> (which key belongs to which
  credential). A table is the list of its rows in the order \<^verbatim>\<open>find()\<close> returns them.
  Field names carry the prefix of their entity (\<open>e_\<close>, \<open>c_\<close>, \<open>ec_\<close>, \<open>p_\<close>), since
  \<^verbatim>\<open>id\<close> and \<^verbatim>\<open>name\<close> occur in several entities.
\<close>

text \<open>Modelled from the spec: the entity \<^verbatim>\<open>Encryption\<close> (section 3, KeyMaterial), whose
  declaration is imported from \<^verbatim>\<open>database/entities/Encryption\<close>. Identifier and
  timestamp are assigned by the store.\<close>
record Encryption =
  e_id :: string
  e_name :: string
  e_encryptionKey :: string
  e_updatedDate :: nat

text \<open>An \<^verbatim>\<open>Encryption\<close> object as the service handles it: \<^verbatim>\<open>Partial<Encryption>\<close>, and
  the result of a query with a \<^verbatim>\<open>select\<close>, where a field may be \<^verbatim>\<open>undefined\<close>.\<close>
record PartialEncryption =
  p_id :: "string option"
  p_name :: "string option"
  p_encryptionKey :: "string option"
  p_updatedDate :: "nat option"

text \<open>Modelled from the spec: the entity \<^verbatim>\<open>Credential\<close> (section 3), imported from
  \<^verbatim>\<open>database/entities/Credential\<close>; the fields the service reads or writes.\<close>
record Credential =
  c_id :: string
  c_encryptedData :: string
  c_isEncryptionKeyLost :: bool

text \<open>Modelled from the spec: a row of \<^verbatim>\<open>encryption_credential\<close> (section 3,
  Association), the pair of a key identifier and a credential identifier.\<close>
record EncryptionCredential =
  ec_encryptionId :: string
  ec_credentialId :: string

record state =
  encryption :: "Encryption list"
  credential :: "Credential list"
  encryption_credential :: "EncryptionCredential list"

text \<open>What the store assigns to a row when it is saved.\<close>
record generated =
  gen_id :: string
  gen_date :: nat

text \<open>The process configuration \<^verbatim>\<open>generate\<close> reads: the environment variable, and the
  contents of the legacy key file (\<open>None\<close> when \<^verbatim>\<open>readFile\<close> throws).\<close>
record config =
  FLOWISE_SECRETKEY_OVERWRITE :: "string option"
  encryptionKeyFile :: "string option"

text \<open>A thrown value: a plain \<^verbatim>\<open>Error\<close> with its message, or the service's
  \<^verbatim>\<open>InternalFlowiseError\<close> with a status code and a message.\<close>
datatype error = Error string | InternalFlowiseError nat string

text \<open>Modelled from the spec: \<^verbatim>\<open>getErrorMessage\<close> of \<^verbatim>\<open>errors/utils\<close> (section 7: the
  wrapper carries the message of the error it wraps).\<close>
fun getErrorMessage :: "error \<Rightarrow> string" where
  "getErrorMessage (Error m) = m"
| "getErrorMessage (InternalFlowiseError _ m) = m"

definition INTERNAL_SERVER_ERROR :: nat where
  "INTERNAL_SERVER_ERROR = 500"

text \<open>The \<^verbatim>\<open>catch\<close> block every operation ends with: the error is thrown again inside an
  \<^verbatim>\<open>InternalFlowiseError\<close> that names the operation.\<close>
definition wrapError :: "string \<Rightarrow> error + 'a \<Rightarrow> error + 'a" where
  "wrapError opName r =
     (case r of
        Inl e \<Rightarrow> Inl (InternalFlowiseError INTERNAL_SERVER_ERROR
                        (''Error: encryptionService.'' @ opName @ '' - '' @ getErrorMessage e))
      | Inr v \<Rightarrow> Inr v)"

text \<open>The black boxes of the service: the cipher of \<^verbatim>\<open>crypto-js\<close> and the JSON codec.
  \<open>AES_encrypt salt m k\<close> is \<^verbatim>\<open>AES.encrypt(m, k).toString()\<close>, which draws a random salt;
  \<open>AES_decrypt ct k\<close> is \<^verbatim>\<open>AES.decrypt(ct, k).toString(enc.Utf8)\<close>. Each returns
  \<open>Inl\<close> the message of the error it throws. The passphrase is the \<^verbatim>\<open>encryptionKey\<close>
  field of an object, which may be \<^verbatim>\<open>undefined\<close>. The type \<open>'p\<close> is
  \<^verbatim>\<open>ICredentialDataDecrypted\<close>.\<close>
record 'p primitives =
  AES_encrypt :: "8 word list \<Rightarrow> string \<Rightarrow> string option \<Rightarrow> string + string"
  AES_decrypt :: "string \<Rightarrow> string option \<Rightarrow> string + string"
  JSON_stringify :: "'p \<Rightarrow> string + string"
  JSON_parse :: "string \<Rightarrow> string + 'p"

section \<open>Runtime functions\<close>

text \<open>\<^verbatim>\<open>Number.prototype.toString()\<close> on a non-negative integer: its decimal digits.\<close>
definition digit :: "nat \<Rightarrow> char" where
  "digit d = ''0123456789'' ! d"

function toString :: "nat \<Rightarrow> string" where
  "toString n = (if n < 10 then [digit n] else toString (n div 10) @ [digit (n mod 10)])"
  by pat_completeness auto
termination
  by (relation "measure id") auto

declare toString.simps [simp del]

text \<open>\<^verbatim>\<open>randomBytes(n)\<close>: the next \<open>n\<close> bytes of the system's entropy source.\<close>
definition randomBytes :: "nat \<Rightarrow> (nat \<Rightarrow> 8 word) \<Rightarrow> 8 word list" where
  "randomBytes n entropy = map entropy [0..<n]"

text \<open>\<^verbatim>\<open>Buffer.toString('base64')\<close>: three bytes give four characters of the alphabet,
  a last group of one or two bytes is padded with \<^verbatim>\<open>=\<close>.\<close>
definition base64Char :: "nat \<Rightarrow> char" where
  "base64Char i =
     ''ABCDEFGHIJKLMNOPQRSTUVWXYZabcdefghijklmnopqrstuvwxyz0123456789+/'' ! i"

fun base64 :: "8 word list \<Rightarrow> string" where
  "base64 [] = []"
| "base64 [a] =
     (let n = unat a * 65536
      in [base64Char (n div 262144), base64Char (n div 4096 mod 64), CHR ''='', CHR ''=''])"
| "base64 [a, b] =
     (let n = unat a * 65536 + unat b * 256
      in [base64Char (n div 262144), base64Char (n div 4096 mod 64),
          base64Char (n div 64 mod 64), CHR ''=''])"
| "base64 (a # b # c # rest) =
     (let n = unat a * 65536 + unat b * 256 + unat c
      in [base64Char (n div 262144), base64Char (n div 4096 mod 64),
          base64Char (n div 64 mod 64), base64Char (n mod 64)] @ base64 rest)"

section \<open>Repositories\<close>

text \<open>The object \<^verbatim>\<open>find()\<close> builds from a row, every column selected.\<close>
definition entity :: "Encryption \<Rightarrow> PartialEncryption" where
  "entity r = \<lparr>p_id = Some (e_id r), p_name = Some (e_name r),
               p_encryptionKey = Some (e_encryptionKey r),
               p_updatedDate = Some (e_updatedDate r)\<rparr>"

text \<open>The object built under \<^verbatim>\<open>select: { id: true, encryptionKey: true }\<close>.\<close>
definition select_id_encryptionKey :: "Encryption \<Rightarrow> PartialEncryption" where
  "select_id_encryptionKey r = \<lparr>p_id = Some (e_id r), p_name = None,
               p_encryptionKey = Some (e_encryptionKey r), p_updatedDate = None\<rparr>"

text \<open>Modelled from the spec: the row the store builds for a new key (section 3: the
  identifier and the timestamp are store-assigned, whatever the object holds).\<close>
definition newRow :: "generated \<Rightarrow> string \<Rightarrow> string \<Rightarrow> Encryption" where
  "newRow g nm k =
     \<lparr>e_id = gen_id g, e_name = nm, e_encryptionKey = k, e_updatedDate = gen_date g\<rparr>"

text \<open>Modelled from the spec: \<^verbatim>\<open>getRepository(Encryption).create\<close> followed by
  \<^verbatim>\<open>save\<close> (section 6: \<^verbatim>\<open>create/save(partial)\<close> returns the KeyMaterial). The new row is
  appended to the table. \<^verbatim>\<open>create\<close> of the service calls it with a name and a key.\<close>
definition save :: "generated \<Rightarrow> string \<Rightarrow> string \<Rightarrow> state \<Rightarrow> Encryption \<times> state" where
  "save g nm k st =
     (let row = newRow g nm k
      in (row, st\<lparr>encryption := encryption st @ [row]\<rparr>))"

text \<open>Modelled from the spec: \<^verbatim>\<open>encryptionCredential.findByCredentialId\<close> of
  \<^verbatim>\<open>services/encryptionCredential\<close> (section 6, Association repository): the rows of a
  credential.\<close>
definition findByCredentialId :: "string \<Rightarrow> state \<Rightarrow> EncryptionCredential list" where
  "findByCredentialId credentialId st =
     filter (\<lambda>r. ec_credentialId r = credentialId) (encryption_credential st)"

text \<open>Modelled from the spec: \<^verbatim>\<open>encryptionCredential.create\<close> (section 6: \<^verbatim>\<open>create(keyId,
  credentialId)\<close>; section 4.4: create association).\<close>
definition encryptionCredential_create :: "string \<Rightarrow> string \<Rightarrow> state \<Rightarrow> state" where
  "encryptionCredential_create encryptionId credentialId st =
     st\<lparr>encryption_credential := encryption_credential st @
          [\<lparr>ec_encryptionId = encryptionId, ec_credentialId = credentialId\<rparr>]\<rparr>"

text \<open>Modelled from the spec: \<^verbatim>\<open>encryptionCredential.updateEncryptionId\<close> (section 6:
  \<^verbatim>\<open>updateKeyId(keyId, credentialId)\<close>; section 4.4: update the association of the credential
  to the key).\<close>
definition updateEncryptionId :: "string \<Rightarrow> string \<Rightarrow> state \<Rightarrow> state" where
  "updateEncryptionId encryptionId credentialId st =
     st\<lparr>encryption_credential :=
          map (\<lambda>r. if ec_credentialId r = credentialId
                   then r\<lparr>ec_encryptionId := encryptionId\<rparr> else r)
              (encryption_credential st)\<rparr>"

text \<open>Modelled from the spec: \<^verbatim>\<open>encryptionCredential.deleteByEncryptionId\<close> (section 6:
  \<^verbatim>\<open>deleteByKeyAndCredential(keyId, credentialId)\<close>; section 4.4: delete any association
  between the key and the credential).\<close>
definition deleteByEncryptionId :: "string \<Rightarrow> string \<Rightarrow> state \<Rightarrow> state" where
  "deleteByEncryptionId encryptionId credentialId st =
     st\<lparr>encryption_credential :=
          filter (\<lambda>r. \<not> (ec_encryptionId r = encryptionId \<and> ec_credentialId r = credentialId))
                 (encryption_credential st)\<rparr>"

text \<open>Modelled from the spec: \<^verbatim>\<open>credentials.updateIsEncryptionKeyLost\<close> of
  \<^verbatim>\<open>services/credentials\<close> (section 6, Credential repository): set the flag of the
  credential with the given identifier.\<close>
definition updateIsEncryptionKeyLost :: "string \<Rightarrow> bool \<Rightarrow> state \<Rightarrow> state" where
  "updateIsEncryptionKeyLost credentialId b st =
     st\<lparr>credential :=
          map (\<lambda>c. if c_id c = credentialId then c\<lparr>c_isEncryptionKeyLost := b\<rparr> else c)
              (credential st)\<rparr>"

section \<open>create\<close>

text \<open>\<^verbatim>\<open>create\<close>: step 1 replaces a key that is \<^verbatim>\<open>undefined\<close> or empty (JavaScript's
  \<^verbatim>\<open>!x\<close>) by 24 random bytes in base64, step 2 throws when the name is \<^verbatim>\<open>undefined\<close>
  or empty, step 3 saves, step 4 returns the saved entity.\<close>
definition create ::
  "(nat \<Rightarrow> 8 word) \<Rightarrow> generated \<Rightarrow> state \<Rightarrow> PartialEncryption
     \<Rightarrow> error + (PartialEncryption \<times> state)" where
  "create entropy g st encryption0 =
     wrapError ''create''
       (let encryptionKey =
              (case p_encryptionKey encryption0 of
                 None \<Rightarrow> base64 (randomBytes 24 entropy)
               | Some k \<Rightarrow> if k = [] then base64 (randomBytes 24 entropy) else k)
        in case p_name encryption0 of
             None \<Rightarrow> Inl (Error ''Please provide a name for this encryption.'')
           | Some nm \<Rightarrow>
               if nm = [] then Inl (Error ''Please provide a name for this encryption.'')
               else (let (newEncryption, st') = save g nm encryptionKey st
                     in Inr (entity newEncryption, st')))"

section \<open>get\<close>

text \<open>\<^verbatim>\<open>order: { updatedDate: 'DESC' }\<close>: the rows by decreasing timestamp; rows with
  equal timestamps stay in table order.\<close>
definition orderByUpdatedDateDesc :: "Encryption list \<Rightarrow> Encryption list" where
  "orderByUpdatedDateDesc rows = sort_key (\<lambda>r. - int (e_updatedDate r)) rows"

text \<open>\<^verbatim>\<open>LEFT JOIN\<close>: every left row with each right row that matches it, or once with no
  right row when none matches.\<close>
definition leftJoin :: "'a list \<Rightarrow> 'b list \<Rightarrow> ('a \<Rightarrow> 'b \<Rightarrow> bool) \<Rightarrow> ('a \<times> 'b option) list" where
  "leftJoin xs ys on =
     concat (map (\<lambda>x. case filter (on x) ys of
                         [] \<Rightarrow> [(x, None)]
                       | ms \<Rightarrow> map (\<lambda>y. (x, Some y)) ms) xs)"

text \<open>\<^verbatim>\<open>getMany()\<close> builds one entity for each identifier of the root table among the
  rows of the join, in the order of their first rows.\<close>
fun getMany :: "Encryption list \<Rightarrow> Encryption list" where
  "getMany [] = []"
| "getMany (r # rs) = r # getMany (filter (\<lambda>x. e_id x \<noteq> e_id r) rs)"

text \<open>The query of step 2 of \<^verbatim>\<open>get\<close>: \<^verbatim>\<open>encryption e\<close> left-joined with
  \<^verbatim>\<open>encryption_credential ec\<close> on \<^verbatim>\<open>ec.encryptionId = e.id\<close>, left-joined with
  \<^verbatim>\<open>credential c\<close> on \<^verbatim>\<open>ec.credentialId = c.id\<close>, where \<^verbatim>\<open>c.id = :credentialId\<close>.\<close>
definition encryptionsOfCredential :: "string \<Rightarrow> state \<Rightarrow> Encryption list" where
  "encryptionsOfCredential credentialId st =
     (let e_ec = leftJoin (encryption st) (encryption_credential st)
                   (\<lambda>e ec. ec_encryptionId ec = e_id e);
          e_ec_c = leftJoin e_ec (credential st)
                   (\<lambda>(e, ec) c. case ec of None \<Rightarrow> False
                                  | Some r \<Rightarrow> ec_credentialId r = c_id c);
          selected = filter (\<lambda>(_, c). case c of None \<Rightarrow> False
                                      | Some c' \<Rightarrow> c_id c' = credentialId) e_ec_c
      in getMany (map (\<lambda>((e, _), _). e) selected))"

definition get :: "state \<Rightarrow> Credential option \<Rightarrow> error + PartialEncryption" where
  "get st credential0 =
     wrapError ''get''
       (case credential0 of
          None \<Rightarrow>
            (let dbResponse = map select_id_encryptionKey (orderByUpdatedDateDesc (encryption st))
             in if length dbResponse \<noteq> 0 then Inr (dbResponse ! 0)
                else Inl (Error ''No encryption key available''))
        | Some c \<Rightarrow>
            (let credentialId = c_id c;
                 dbResponse = map entity (encryptionsOfCredential credentialId st)
             in if length dbResponse = 1 then Inr (dbResponse ! 0)
                else if length dbResponse > 1
                then Inl (Error (''credentialId: '' @ c_id c @ '' have multiple encryptions''))
                else Inl (Error (''credentialId: '' @ c_id c @ [CHR 0x27] @ ''s encryption is lost''))))"

section \<open>encrypt and decrypt\<close>

text \<open>\<^verbatim>\<open>encrypt\<close>: step 1 takes the latest key, step 2 encrypts the serialised object with
  it; the key object is returned with the ciphertext.\<close>
definition encrypt ::
  "'p primitives \<Rightarrow> 8 word list \<Rightarrow> state \<Rightarrow> 'p \<Rightarrow> error + (PartialEncryption \<times> string)" where
  "encrypt p salt st plainDataObj =
     wrapError ''encrypt''
       (case get st None of
          Inl e \<Rightarrow> Inl e
        | Inr encryption1 \<Rightarrow>
            (case JSON_stringify p plainDataObj of
               Inl m \<Rightarrow> Inl (Error m)
             | Inr text1 \<Rightarrow>
                 (case AES_encrypt p salt text1 (p_encryptionKey encryption1) of
                    Inl m \<Rightarrow> Inl (Error m)
                  | Inr encryptedData \<Rightarrow> Inr (encryption1, encryptedData))))"

text \<open>\<^verbatim>\<open>decrypt\<close>: step 1 looks the key of the credential up when none is given, step 2
  decrypts the data of the credential and parses the text.\<close>
definition decrypt ::
  "'p primitives \<Rightarrow> state \<Rightarrow> Credential \<Rightarrow> PartialEncryption option
     \<Rightarrow> error + (PartialEncryption \<times> 'p)" where
  "decrypt p st c encryption0 =
     wrapError ''decrypt''
       (case (case encryption0 of None \<Rightarrow> get st (Some c) | Some e \<Rightarrow> Inr e) of
          Inl e \<Rightarrow> Inl e
        | Inr encryption1 \<Rightarrow>
            (case AES_decrypt p (c_encryptedData c) (p_encryptionKey encryption1) of
               Inl m \<Rightarrow> Inl (Error m)
             | Inr text1 \<Rightarrow>
                 (case JSON_parse p text1 of
                    Inl m \<Rightarrow> Inl (Error m)
                  | Inr plainDataObj \<Rightarrow> Inr (encryption1, plainDataObj))))"

section \<open>resync\<close>

text \<open>The inner loop of \<^verbatim>\<open>resync\<close> for one credential, over the keys still to try. A key
  that decrypts ends the loop (\<^verbatim>\<open>break\<close>); a key that does not sets the flag and
  deletes the rows that pair it with the credential.\<close>
fun resyncEncryptions :: "'p primitives \<Rightarrow> Credential \<Rightarrow> Encryption list \<Rightarrow> state \<Rightarrow> state" where
  "resyncEncryptions p c [] st = st"
| "resyncEncryptions p c (e # es) st =
     (let decrypted = (case decrypt p st c (Some (entity e)) of Inl _ \<Rightarrow> False | Inr _ \<Rightarrow> True)
      in if decrypted
         then (let dbResponse = findByCredentialId (c_id c) st;
                   st1 = (if length dbResponse = 0
                          then encryptionCredential_create (e_id e) (c_id c) st
                          else if length dbResponse = 1
                          then updateEncryptionId (e_id e) (c_id c) st
                          else st)
               in updateIsEncryptionKeyLost (c_id c) False st1)
         else resyncEncryptions p c es
                (deleteByEncryptionId (e_id e) (c_id c)
                   (updateIsEncryptionKeyLost (c_id c) True st)))"

text \<open>The outer loop, over the credentials read at the start.\<close>
fun resyncCredentials :: "'p primitives \<Rightarrow> Encryption list \<Rightarrow> Credential list \<Rightarrow> state \<Rightarrow> state" where
  "resyncCredentials p allEncryption [] st = st"
| "resyncCredentials p allEncryption (c # cs) st =
     resyncCredentials p allEncryption cs (resyncEncryptions p c allEncryption st)"

text \<open>\<^verbatim>\<open>resync\<close>. The repositories of the model do not fail and the error of a
  \<^verbatim>\<open>decrypt\<close> is caught in the loop, so the \<^verbatim>\<open>catch\<close> block of \<^verbatim>\<open>resync\<close> is never
  entered and the result is the new state.\<close>
definition resync :: "'p primitives \<Rightarrow> state \<Rightarrow> state" where
  "resync p st = resyncCredentials p (encryption st) (credential st) st"

section \<open>generate\<close>

text \<open>The closure \<^verbatim>\<open>insertLegacyEncryption\<close>. It reads \<^verbatim>\<open>encryptionKeys\<close>, the keys
  found by step 3, and updates \<^verbatim>\<open>nameCounter\<close>.\<close>
definition insertLegacyEncryption ::
  "(nat \<Rightarrow> 8 word) \<Rightarrow> generated \<Rightarrow> string list \<Rightarrow> string \<Rightarrow> nat \<times> state
     \<Rightarrow> error + (nat \<times> state)" where
  "insertLegacyEncryption entropy g encryptionKeys SECRETKEY s =
     (case s of (nameCounter, st) \<Rightarrow>
        if SECRETKEY \<noteq> [] \<and> SECRETKEY \<notin> set encryptionKeys
        then (case create entropy g st
                     \<lparr>p_id = None, p_name = Some (toString (nameCounter + 1)),
                      p_encryptionKey = Some SECRETKEY, p_updatedDate = None\<rparr> of
                Inl e \<Rightarrow> Inl e
              | Inr (_, st') \<Rightarrow> Inr (nameCounter + 1, st'))
        else Inr (nameCounter, st))"

text \<open>\<^verbatim>\<open>generate\<close>. The three rows it may save get \<open>g1\<close>, \<open>g2\<close> and \<open>g3\<close> from the
  store.\<close>
definition generate ::
  "(nat \<Rightarrow> 8 word) \<Rightarrow> generated \<times> generated \<times> generated \<Rightarrow> config \<Rightarrow> state
     \<Rightarrow> error + (PartialEncryption \<times> state)" where
  "generate entropy gs cfg st =
     wrapError ''generate''
       (case gs of (g1, g2, g3) \<Rightarrow>
       (let SECRETKEY_OVERWRITE =
              (case FLOWISE_SECRETKEY_OVERWRITE cfg of
                 None \<Rightarrow> []
               | Some v \<Rightarrow> if v \<noteq> [] then v else []);
            SECRETKEY_FROM_PATH =
              (case encryptionKeyFile cfg of None \<Rightarrow> [] | Some v \<Rightarrow> v);
            encryptionKeys = map e_encryptionKey (encryption st);
            nameCounter = length encryptionKeys
        in (case insertLegacyEncryption entropy g1 encryptionKeys SECRETKEY_FROM_PATH
                   (nameCounter, st) of
              Inl e \<Rightarrow> Inl e
            | Inr s1 \<Rightarrow>
                (case insertLegacyEncryption entropy g2 encryptionKeys SECRETKEY_OVERWRITE s1 of
                   Inl e \<Rightarrow> Inl e
                 | Inr (nameCounter2, st2) \<Rightarrow>
                     (case get st2 None of
                        Inr e \<Rightarrow> Inr (e, st2)
                      | Inl _ \<Rightarrow>
                          create entropy g3 st2
                            \<lparr>p_id = None, p_name = Some (toString (nameCounter2 + 1)),
                             p_encryptionKey = None, p_updatedDate = None\<rparr>)))))"

section \<open>init\<close>

text \<open>\<^verbatim>\<open>init\<close>: \<^verbatim>\<open>generate\<close>, then \<^verbatim>\<open>resync\<close> on the store it leaves.\<close>
definition init ::
  "'p primitives \<Rightarrow> (nat \<Rightarrow> 8 word) \<Rightarrow> generated \<times> generated \<times> generated \<Rightarrow> config
     \<Rightarrow> state \<Rightarrow> error + state" where
  "init p entropy gs cfg st =
     wrapError ''init''
       (case generate entropy gs cfg st of
          Inl e \<Rightarrow> Inl e
        | Inr (_, st1) \<Rightarrow> Inr (resync p st1))"

section \<open>A cipher and a codec for concrete scenarios\<close>

text \<open>An instance of the primitives on which the operations can be run: the ciphertext is
  the passphrase, a colon and the message; a ciphertext that does not start with the
  passphrase decrypts to the empty text, which the codec rejects. The plaintext objects are
  the non-empty texts.\<close>
definition colonCipher :: "string primitives" where
  "colonCipher =
     \<lparr>AES_encrypt = (\<lambda>salt m k. case k of None \<Rightarrow> Inl ''no passphrase''
                                 | Some k' \<Rightarrow> Inr (k' @ '':'' @ m)),
      AES_decrypt = (\<lambda>ct k. case k of None \<Rightarrow> Inl ''no passphrase''
                             | Some k' \<Rightarrow> if take (length k' + 1) ct = k' @ '':''
                                          then Inr (drop (length k' + 1) ct) else Inr []),
      JSON_stringify = (\<lambda>v. Inr v),
      JSON_parse = (\<lambda>s. if s = [] then Inl ''Unexpected end of JSON input'' else Inr s)\<rparr>"

section \<open>Concrete stores and inputs\<close>

definition sampleEntropy :: "nat \<Rightarrow> 8 word" where
  "sampleEntropy i = of_nat i"

definition sampleGenerated :: "generated \<times> generated \<times> generated" where
  "sampleGenerated =
     (\<lparr>gen_id = ''id-a'', gen_date = 1\<rparr>, \<lparr>gen_id = ''id-b'', gen_date = 2\<rparr>,
      \<lparr>gen_id = ''id-c'', gen_date = 3\<rparr>)"

definition emptyStore :: state where
  "emptyStore = \<lparr>encryption = [], credential = [], encryption_credential = []\<rparr>"

text \<open>A store without keys that holds a credential, not marked lost, and a row that pairs it
  with a key.\<close>
definition keylessStore :: state where
  "keylessStore =
     \<lparr>encryption = [],
      credential = [\<lparr>c_id = ''c1'', c_encryptedData = ''s1:hello'',
                     c_isEncryptionKeyLost = False\<rparr>],
      encryption_credential = [\<lparr>ec_encryptionId = ''k1'', ec_credentialId = ''c1''\<rparr>]\<rparr>"

text \<open>A configuration whose legacy key file and environment variable hold the same key.\<close>
definition sameKeyConfig :: config where
  "sameKeyConfig = \<lparr>FLOWISE_SECRETKEY_OVERWRITE = Some ''k'', encryptionKeyFile = Some ''k''\<rparr>"

definition sameKeyStore :: state where
  "sameKeyStore =
     \<lparr>encryption =
        [\<lparr>e_id = ''id-a'', e_name = ''1'', e_encryptionKey = ''k'', e_updatedDate = 1\<rparr>,
         \<lparr>e_id = ''id-b'', e_name = ''2'', e_encryptionKey = ''k'', e_updatedDate = 2\<rparr>],
      credential = [], encryption_credential = []\<rparr>"

section \<open>Notions the properties are stated with\<close>

text \<open>The keys associated with a credential: the rows of \<^verbatim>\<open>encryption\<close> that a row of
  \<^verbatim>\<open>encryption_credential\<close> pairs with the identifier of the credential.\<close>
definition associatedKeys :: "state \<Rightarrow> Credential \<Rightarrow> Encryption set" where
  "associatedKeys st c =
     {e \<in> set (encryption st).
        \<exists>r\<in>set (encryption_credential st). ec_encryptionId r = e_id e \<and> ec_credentialId r = c_id c}"

text \<open>The test of step 3 of \<^verbatim>\<open>resync\<close>: \<^verbatim>\<open>decrypt(credential, encryption)\<close> returns.\<close>
definition decryptsWith :: "'p primitives \<Rightarrow> state \<Rightarrow> Credential \<Rightarrow> Encryption \<Rightarrow> bool" where
  "decryptsWith p st c e =
     (case decrypt p st c (Some (entity e)) of Inl _ \<Rightarrow> False | Inr _ \<Rightarrow> True)"

text \<open>The records of the table \<^verbatim>\<open>credential\<close> with a given identifier.\<close>
definition recordsOf :: "string \<Rightarrow> state \<Rightarrow> Credential list" where
  "recordsOf cid st = filter (\<lambda>x. c_id x = cid) (credential st)"

text \<open>What the round trip expects of the black boxes: the cipher decrypts, under the same
  passphrase, what it has encrypted, and the codec parses what it has serialised.\<close>
definition cipherRoundTrip :: "'p primitives \<Rightarrow> bool" where
  "cipherRoundTrip p =
     (\<forall>salt m k ct. AES_encrypt p salt m k = Inr ct \<longrightarrow> AES_decrypt p ct k = Inr m)"

definition codecRoundTrip :: "'p primitives \<Rightarrow> 'p \<Rightarrow> bool" where
  "codecRoundTrip p v = (\<forall>text1. JSON_stringify p v = Inr text1 \<longrightarrow> JSON_parse p text1 = Inr v)"


text \<open>Two keys, and a credential encrypted with the second one that a row pairs with the
  first one.\<close>
definition twoKeyStore :: state where
  "twoKeyStore =
     \<lparr>encryption =
        [\<lparr>e_id = ''k1'', e_name = ''1'', e_encryptionKey = ''s1'', e_updatedDate = 5\<rparr>,
         \<lparr>e_id = ''k2'', e_name = ''2'', e_encryptionKey = ''s2'', e_updatedDate = 7\<rparr>],
      credential = [\<lparr>c_id = ''c1'', c_encryptedData = ''s2:hello'',
                     c_isEncryptionKeyLost = True\<rparr>],
      encryption_credential = [\<lparr>ec_encryptionId = ''k1'', ec_credentialId = ''c1''\<rparr>]\<rparr>"

text \<open>Two keys, and a credential encrypted with the first one that two rows pair with both
  keys.\<close>
definition multiRowStore :: state where
  "multiRowStore =
     \<lparr>encryption =
        [\<lparr>e_id = ''k1'', e_name = ''1'', e_encryptionKey = ''s1'', e_updatedDate = 5\<rparr>,
         \<lparr>e_id = ''k2'', e_name = ''2'', e_encryptionKey = ''s2'', e_updatedDate = 7\<rparr>],
      credential = [\<lparr>c_id = ''c1'', c_encryptedData = ''s1:hello'',
                     c_isEncryptionKeyLost = False\<rparr>],
      encryption_credential = [\<lparr>ec_encryptionId = ''k1'', ec_credentialId = ''c1''\<rparr>,
                               \<lparr>ec_encryptionId = ''k2'', ec_credentialId = ''c1''\<rparr>]\<rparr>"

text \<open>One key, and a credential encrypted with a key that is not in the store.\<close>
definition lostStore :: state where
  "lostStore =
     \<lparr>encryption =
        [\<lparr>e_id = ''k1'', e_name = ''1'', e_encryptionKey = ''s1'', e_updatedDate = 5\<rparr>],
      credential = [\<lparr>c_id = ''c1'', c_encryptedData = ''s3:hello'',
                     c_isEncryptionKeyLost = False\<rparr>],
      encryption_credential = [\<lparr>ec_encryptionId = ''k1'', ec_credentialId = ''c1''\<rparr>]\<rparr>"



section \<open>The codec of the runtime on a few objects\<close>

text \<open>The objects \<^verbatim>\<open>{n: v}\<close> whose field is \<^verbatim>\<open>null\<close>, \<^verbatim>\<open>NaN\<close>, \<^verbatim>\<open>true\<close> or
  \<^verbatim>\<open>false\<close>.\<close>
datatype jsvalue = JSNull | JSNaN | JSTrue | JSFalse

datatype nObject = NObject jsvalue

text \<open>\<^verbatim>\<open>JSON.stringify\<close> and \<^verbatim>\<open>JSON.parse\<close> on these objects, with the cipher of
  \<open>colonCipher\<close>: \<^verbatim>\<open>JSON.stringify\<close> writes \<^verbatim>\<open>NaN\<close> as \<^verbatim>\<open>null\<close>. A text that is the
  serialisation of none of them is rejected: what it denotes, if anything, is not one of these
  objects.\<close>
definition nObjectPrimitives :: "nObject primitives" where
  \<open>nObjectPrimitives =
     \<lparr>AES_encrypt = AES_encrypt colonCipher,
      AES_decrypt = AES_decrypt colonCipher,
      JSON_stringify =
        (\<lambda>v. case v of
               NObject JSNull \<Rightarrow> Inr ''{"n":null}''
             | NObject JSNaN \<Rightarrow> Inr ''{"n":null}''
             | NObject JSTrue \<Rightarrow> Inr ''{"n":true}''
             | NObject JSFalse \<Rightarrow> Inr ''{"n":false}''),
      JSON_parse =
        (\<lambda>s. if s = ''{"n":null}'' then Inr (NObject JSNull)
             else if s = ''{"n":true}'' then Inr (NObject JSTrue)
             else if s = ''{"n":false}'' then Inr (NObject JSFalse)
             else Inl ''Unexpected token'')\<rparr>\<close>

section \<open>Runtime functions: facts\<close>

lemma toString_nonempty: "toString n \<noteq> []"
  by (subst toString.simps) simp

lemma toString_1: "toString (Suc 0) = ''1''"
  by (simp add: toString.simps digit_def)

lemma length_base64: "length (base64 bs) = 4 * ((length bs + 2) div 3)"
proof (induction bs rule: base64.induct)
  case (4 a b c rest)
  have "(length (a # b # c # rest) + 2) div 3 = Suc ((length rest + 2) div 3)"
    by simp
  with 4 show ?case by (simp add: Let_def)
qed (simp_all add: Let_def)

lemma length_randomBytes: "length (randomBytes n entropy) = n"
  by (simp add: randomBytes_def)

lemma length_randomKey: "length (base64 (randomBytes 24 entropy)) = 32"
  by (simp add: length_base64 length_randomBytes)

lemma randomKey_nonempty: "base64 (randomBytes 24 entropy) \<noteq> []"
  using length_randomKey [of entropy] by auto

lemma sampleBytes:
  "randomBytes 24 sampleEntropy =
     [0, 1, 2, 3, 4, 5, 6, 7, 8, 9, 10, 11, 12, 13, 14, 15, 16, 17, 18, 19, 20, 21, 22, 23]"
  by (simp add: randomBytes_def sampleEntropy_def upt_rec [of _ "numeral _"] upt_rec [of 0])

lemma sampleKey: "base64 (randomBytes 24 sampleEntropy) = ''AAECAwQFBgcICQoLDA0ODxAREhMUFRYX''"
  by (simp add: sampleBytes base64Char_def Let_def)

section \<open>create: the validation of the name and the generated key\<close>

lemma create_named:
  "nm \<noteq> [] \<Longrightarrow> k \<noteq> [] \<Longrightarrow>
   create entropy g st \<lparr>p_id = i, p_name = Some nm, p_encryptionKey = Some k, p_updatedDate = d\<rparr>
     = Inr (entity (newRow g nm k), st\<lparr>encryption := encryption st @ [newRow g nm k]\<rparr>)"
  by (simp add: create_def wrapError_def save_def Let_def)

lemma create_unkeyed:
  "nm \<noteq> [] \<Longrightarrow>
   create entropy g st \<lparr>p_id = i, p_name = Some nm, p_encryptionKey = None, p_updatedDate = d\<rparr>
     = Inr (entity (newRow g nm (base64 (randomBytes 24 entropy))),
            st\<lparr>encryption := encryption st @ [newRow g nm (base64 (randomBytes 24 entropy))]\<rparr>)"
  by (simp add: create_def wrapError_def save_def Let_def)

text \<open>
  Claim C9. \<^verbatim>\<open>create(partial)\<close> fails if and only if the name is missing, and then with
  the validation error; a field is missing when JavaScript's \<^verbatim>\<open>!x\<close> holds of it, that is
  when it is \<^verbatim>\<open>undefined\<close> or the empty string. Otherwise \<^verbatim>\<open>create\<close> appends one row
  to the table and returns it; the key of the row is not empty: it is the base64 text of 24
  random bytes when the key is missing, and the given key otherwise.
\<close>
theorem create_validation:
  "((\<exists>e. create entropy g st x = Inl e) \<longleftrightarrow> (p_name x = None \<or> p_name x = Some [])) \<and>
   (p_name x = None \<or> p_name x = Some [] \<longrightarrow>
      create entropy g st x = Inl (InternalFlowiseError 500
        ''Error: encryptionService.create - Please provide a name for this encryption.'')) \<and>
   (\<forall>nm. p_name x = Some nm \<and> nm \<noteq> [] \<longrightarrow>
      (\<exists>k. create entropy g st x =
              Inr (entity (newRow g nm k), st\<lparr>encryption := encryption st @ [newRow g nm k]\<rparr>) \<and>
           e_encryptionKey (newRow g nm k) = k \<and> k \<noteq> [] \<and>
           (if p_encryptionKey x = None \<or> p_encryptionKey x = Some []
            then k = base64 (randomBytes 24 entropy) \<and> length (randomBytes 24 entropy) = 24
            else p_encryptionKey x = Some k)))"
proof (intro conjI allI impI)
  show "(\<exists>e. create entropy g st x = Inl e) \<longleftrightarrow> (p_name x = None \<or> p_name x = Some [])"
    by (auto simp: create_def wrapError_def save_def Let_def split: option.splits)
next
  assume "p_name x = None \<or> p_name x = Some []"
  then show "create entropy g st x = Inl (InternalFlowiseError 500
        ''Error: encryptionService.create - Please provide a name for this encryption.'')"
    by (auto simp: create_def wrapError_def INTERNAL_SERVER_ERROR_def)
next
  fix nm assume nm: "p_name x = Some nm \<and> nm \<noteq> []"
  let ?R = "base64 (randomBytes 24 entropy)"
  let ?k = "case p_encryptionKey x of None \<Rightarrow> ?R | Some k \<Rightarrow> if k = [] then ?R else k"
  have "?k \<noteq> []"
    using randomKey_nonempty [of entropy] by (simp split: option.splits)
  moreover have "create entropy g st x =
      Inr (entity (newRow g nm ?k), st\<lparr>encryption := encryption st @ [newRow g nm ?k]\<rparr>)"
    using nm by (simp add: create_def wrapError_def save_def Let_def)
  moreover have "e_encryptionKey (newRow g nm ?k) = ?k"
    by (simp add: newRow_def)
  moreover have "if p_encryptionKey x = None \<or> p_encryptionKey x = Some []
            then ?k = ?R \<and> length (randomBytes 24 entropy) = 24
            else p_encryptionKey x = Some ?k"
    by (auto simp: length_randomBytes split: option.splits)
  ultimately show "\<exists>k. create entropy g st x =
              Inr (entity (newRow g nm k), st\<lparr>encryption := encryption st @ [newRow g nm k]\<rparr>) \<and>
           e_encryptionKey (newRow g nm k) = k \<and> k \<noteq> [] \<and>
           (if p_encryptionKey x = None \<or> p_encryptionKey x = Some []
            then k = base64 (randomBytes 24 entropy) \<and> length (randomBytes 24 entropy) = 24
            else p_encryptionKey x = Some k)"
    by blast
qed

theorem create_validation_witness:
  "create sampleEntropy \<lparr>gen_id = ''id-a'', gen_date = 1\<rparr> emptyStore
      \<lparr>p_id = None, p_name = Some [], p_encryptionKey = Some ''s1'', p_updatedDate = None\<rparr>
     = Inl (InternalFlowiseError 500
        ''Error: encryptionService.create - Please provide a name for this encryption.'') \<and>
   create sampleEntropy \<lparr>gen_id = ''id-a'', gen_date = 1\<rparr> emptyStore
      \<lparr>p_id = None, p_name = Some ''1'', p_encryptionKey = None, p_updatedDate = None\<rparr>
     = Inr (\<lparr>p_id = Some ''id-a'', p_name = Some ''1'',
             p_encryptionKey = Some ''AAECAwQFBgcICQoLDA0ODxAREhMUFRYX'', p_updatedDate = Some 1\<rparr>,
            \<lparr>encryption = [\<lparr>e_id = ''id-a'', e_name = ''1'',
                             e_encryptionKey = ''AAECAwQFBgcICQoLDA0ODxAREhMUFRYX'',
                             e_updatedDate = 1\<rparr>],
             credential = [], encryption_credential = []\<rparr>)"
  using create_validation [of sampleEntropy "\<lparr>gen_id = ''id-a'', gen_date = 1\<rparr>" emptyStore
          "\<lparr>p_id = None, p_name = Some [], p_encryptionKey = Some ''s1'', p_updatedDate = None\<rparr>"]
        create_validation [of sampleEntropy "\<lparr>gen_id = ''id-a'', gen_date = 1\<rparr>" emptyStore
          "\<lparr>p_id = None, p_name = Some ''1'', p_encryptionKey = None, p_updatedDate = None\<rparr>"]
  by (simp add: sampleKey emptyStore_def newRow_def entity_def)

section \<open>get without a credential\<close>

lemma get_latest_empty:
  "encryption st = [] \<Longrightarrow>
   get st None = Inl (InternalFlowiseError 500
                       ''Error: encryptionService.get - No encryption key available'')"
  by (simp add: get_def wrapError_def orderByUpdatedDateDesc_def INTERNAL_SERVER_ERROR_def)

lemma get_latest_nonempty:
  "encryption st \<noteq> [] \<Longrightarrow>
   get st None = Inr (select_id_encryptionKey (hd (orderByUpdatedDateDesc (encryption st))))"
proof -
  assume ne: "encryption st \<noteq> []"
  have "length (orderByUpdatedDateDesc (encryption st)) = length (encryption st)"
    by (simp add: orderByUpdatedDateDesc_def)
  with ne have "orderByUpdatedDateDesc (encryption st) \<noteq> []" by auto
  then show ?thesis
    by (simp add: get_def wrapError_def hd_conv_nth)
qed

section \<open>generate\<close>

lemma insertLegacyEncryption_eq:
  "insertLegacyEncryption entropy g keys K (n, st) =
     (if K \<noteq> [] \<and> K \<notin> set keys
      then Inr (n + 1, st\<lparr>encryption := encryption st @ [newRow g (toString (n + 1)) K]\<rparr>)
      else Inr (n, st))"
  by (simp add: insertLegacyEncryption_def create_named toString_nonempty)

text \<open>\<^verbatim>\<open>generate\<close> in one equation: the rows it appends and the entity it returns.\<close>
lemma generate_eq:
  "generate entropy (g1, g2, g3) cfg st =
    (let keys = map e_encryptionKey (encryption st);
         n = length keys;
         F = (case encryptionKeyFile cfg of None \<Rightarrow> [] | Some v \<Rightarrow> v);
         V = (case FLOWISE_SECRETKEY_OVERWRITE cfg of None \<Rightarrow> [] | Some v \<Rightarrow> v);
         rows1 = (if F \<noteq> [] \<and> F \<notin> set keys then [newRow g1 (toString (n + 1)) F] else []);
         rows2 = (if V \<noteq> [] \<and> V \<notin> set keys
                  then [newRow g2 (toString (n + length rows1 + 1)) V] else []);
         rows = encryption st @ rows1 @ rows2
     in if rows \<noteq> []
        then Inr (select_id_encryptionKey (hd (orderByUpdatedDateDesc rows)),
                  st\<lparr>encryption := rows\<rparr>)
        else Inr (entity (newRow g3 (toString 1) (base64 (randomBytes 24 entropy))),
                  st\<lparr>encryption := [newRow g3 (toString 1) (base64 (randomBytes 24 entropy))]\<rparr>))"
proof -
  define keys where "keys = map e_encryptionKey (encryption st)"
  define F where "F = (case encryptionKeyFile cfg of None \<Rightarrow> [] | Some v \<Rightarrow> v)"
  define V where "V = (case FLOWISE_SECRETKEY_OVERWRITE cfg of None \<Rightarrow> [] | Some v \<Rightarrow> v)"
  have V': "(case FLOWISE_SECRETKEY_OVERWRITE cfg of
               None \<Rightarrow> [] | Some v \<Rightarrow> if v \<noteq> [] then v else []) = V"
    by (simp add: V_def split: option.splits)
  have unfold: "generate entropy (g1, g2, g3) cfg st =
     wrapError ''generate''
       (case insertLegacyEncryption entropy g1 keys F (length keys, st) of
             Inl e \<Rightarrow> Inl e
           | Inr s1 \<Rightarrow>
               (case insertLegacyEncryption entropy g2 keys V s1 of
                  Inl e \<Rightarrow> Inl e
                | Inr (nameCounter2, st2) \<Rightarrow>
                    (case get st2 None of
                       Inr e \<Rightarrow> Inr (e, st2)
                     | Inl _ \<Rightarrow>
                         create entropy g3 st2
                           \<lparr>p_id = None, p_name = Some (toString (nameCounter2 + 1)),
                            p_encryptionKey = None, p_updatedDate = None\<rparr>)))"
    unfolding generate_def Let_def V' keys_def F_def by simp
  consider (both) "F \<noteq> [] \<and> F \<notin> set keys" "V \<noteq> [] \<and> V \<notin> set keys"
    | (fileOnly) "F \<noteq> [] \<and> F \<notin> set keys" "\<not> (V \<noteq> [] \<and> V \<notin> set keys)"
    | (envOnly) "\<not> (F \<noteq> [] \<and> F \<notin> set keys)" "V \<noteq> [] \<and> V \<notin> set keys"
    | (stored) "\<not> (F \<noteq> [] \<and> F \<notin> set keys)" "\<not> (V \<noteq> [] \<and> V \<notin> set keys)"
        "encryption st \<noteq> []"
    | (fresh) "\<not> (F \<noteq> [] \<and> F \<notin> set keys)" "\<not> (V \<noteq> [] \<and> V \<notin> set keys)"
        "encryption st = []"
    by blast
  then show ?thesis
  proof cases
    case both
    then show ?thesis
      unfolding unfold Let_def keys_def [symmetric] F_def [symmetric] V_def [symmetric]
      by (auto simp add: insertLegacyEncryption_eq get_latest_nonempty wrapError_def)
  next
    case fileOnly
    then show ?thesis
      unfolding unfold Let_def keys_def [symmetric] F_def [symmetric] V_def [symmetric]
      by (auto simp add: insertLegacyEncryption_eq get_latest_nonempty wrapError_def)
  next
    case envOnly
    then show ?thesis
      unfolding unfold Let_def keys_def [symmetric] F_def [symmetric] V_def [symmetric]
      by (auto simp add: insertLegacyEncryption_eq get_latest_nonempty wrapError_def)
  next
    case stored
    then show ?thesis
      unfolding unfold Let_def keys_def [symmetric] F_def [symmetric] V_def [symmetric]
      by (auto simp add: insertLegacyEncryption_eq get_latest_nonempty wrapError_def)
  next
    case fresh
    then show ?thesis
      unfolding unfold Let_def keys_def [symmetric] F_def [symmetric] V_def [symmetric]
      by (auto simp add: insertLegacyEncryption_eq get_latest_empty wrapError_def
            create_unkeyed toString_nonempty keys_def)
  qed
qed

lemma generate_keys:
  assumes "generate entropy (g1, g2, g3) cfg st = Inr (e, st')"
  shows "encryption st' \<noteq> []"
    and "\<And>v. encryptionKeyFile cfg = Some v \<Longrightarrow>
           v = [] \<or> v \<in> e_encryptionKey ` set (encryption st')"
    and "\<And>v. FLOWISE_SECRETKEY_OVERWRITE cfg = Some v \<Longrightarrow>
           v = [] \<or> v \<in> e_encryptionKey ` set (encryption st')"
  using assms unfolding generate_eq Let_def
  by (auto simp: newRow_def split: if_splits)

text \<open>
  Claim C6. \<^verbatim>\<open>generate\<close> returns for every entropy, configuration and store, and the
  table of keys is not empty afterwards. With no environment variable, no legacy key file and
  an empty table it saves one row, named \<^verbatim>\<open>1\<close>, whose key is the base64 text (32
  characters) of 24 random bytes, and returns it.
\<close>
theorem generate_at_least_one_key:
  "(\<exists>e st'. generate entropy gs cfg st = Inr (e, st') \<and> encryption st' \<noteq> []) \<and>
   generate entropy (g1, g2, g3)
       \<lparr>FLOWISE_SECRETKEY_OVERWRITE = None, encryptionKeyFile = None\<rparr> (st\<lparr>encryption := []\<rparr>)
     = Inr (entity (newRow g3 ''1'' (base64 (randomBytes 24 entropy))),
            st\<lparr>encryption := [newRow g3 ''1'' (base64 (randomBytes 24 entropy))]\<rparr>) \<and>
   length (base64 (randomBytes 24 entropy)) = 32"
proof (intro conjI)
  obtain a b c where gs: "gs = (a, b, c)" by (cases gs)
  show "\<exists>e st'. generate entropy gs cfg st = Inr (e, st') \<and> encryption st' \<noteq> []"
    unfolding gs generate_eq Let_def by simp
  show "generate entropy (g1, g2, g3)
       \<lparr>FLOWISE_SECRETKEY_OVERWRITE = None, encryptionKeyFile = None\<rparr> (st\<lparr>encryption := []\<rparr>)
     = Inr (entity (newRow g3 ''1'' (base64 (randomBytes 24 entropy))),
            st\<lparr>encryption := [newRow g3 ''1'' (base64 (randomBytes 24 entropy))]\<rparr>)"
    unfolding generate_eq Let_def by (simp add: toString_1)
  show "length (base64 (randomBytes 24 entropy)) = 32"
    by (rule length_randomKey)
qed

theorem generate_at_least_one_key_witness:
  "generate sampleEntropy sampleGenerated
       \<lparr>FLOWISE_SECRETKEY_OVERWRITE = None, encryptionKeyFile = None\<rparr> emptyStore
     = Inr (\<lparr>p_id = Some ''id-c'', p_name = Some ''1'',
             p_encryptionKey = Some ''AAECAwQFBgcICQoLDA0ODxAREhMUFRYX'', p_updatedDate = Some 3\<rparr>,
            \<lparr>encryption = [\<lparr>e_id = ''id-c'', e_name = ''1'',
                             e_encryptionKey = ''AAECAwQFBgcICQoLDA0ODxAREhMUFRYX'',
                             e_updatedDate = 3\<rparr>],
             credential = [], encryption_credential = []\<rparr>)"
  using generate_at_least_one_key [of sampleEntropy sampleGenerated
          "\<lparr>FLOWISE_SECRETKEY_OVERWRITE = None, encryptionKeyFile = None\<rparr>" emptyStore
          "\<lparr>gen_id = ''id-a'', gen_date = 1\<rparr>" "\<lparr>gen_id = ''id-b'', gen_date = 2\<rparr>"
          "\<lparr>gen_id = ''id-c'', gen_date = 3\<rparr>"]
  by (simp add: sampleKey sampleGenerated_def emptyStore_def newRow_def entity_def)

text \<open>
  Claim C7. When \<^verbatim>\<open>generate\<close> has returned, a second call with the same environment
  variable and the same legacy key file, on the store the first call left, returns and leaves
  that store as it is: it saves no row. The entropy and the values the store would assign
  may differ between the calls.
\<close>
theorem generate_idempotent:
  assumes "generate entropy gs cfg st = Inr (e, st')"
  shows "\<exists>e'. generate entropy' gs' cfg st' = Inr (e', st')"
proof -
  obtain g1 g2 g3 where gs: "gs = (g1, g2, g3)" by (cases gs) auto
  obtain h1 h2 h3 where gs': "gs' = (h1, h2, h3)" by (cases gs') auto
  note k = generate_keys [OF assms [unfolded gs]]
  have F: "\<not> ((case encryptionKeyFile cfg of None \<Rightarrow> [] | Some v \<Rightarrow> v) \<noteq> [] \<and>
     (case encryptionKeyFile cfg of None \<Rightarrow> [] | Some v \<Rightarrow> v)
        \<notin> set (map e_encryptionKey (encryption st')))"
    using k(2) by (auto split: option.splits)
  have V: "\<not> ((case FLOWISE_SECRETKEY_OVERWRITE cfg of None \<Rightarrow> [] | Some v \<Rightarrow> v) \<noteq> [] \<and>
     (case FLOWISE_SECRETKEY_OVERWRITE cfg of None \<Rightarrow> [] | Some v \<Rightarrow> v)
        \<notin> set (map e_encryptionKey (encryption st')))"
    using k(3) by (auto split: option.splits)
  show ?thesis
    unfolding gs' generate_eq Let_def using k(1) F V by simp
qed

text \<open>The first call of the scenario: both sources hold the key \<^verbatim>\<open>k\<close>, the store is
  empty.\<close>
lemma generate_sameKey:
  "generate sampleEntropy sampleGenerated sameKeyConfig emptyStore
     = Inr (\<lparr>p_id = Some ''id-b'', p_name = None, p_encryptionKey = Some ''k'',
             p_updatedDate = None\<rparr>, sameKeyStore)"
  by (simp add: sampleGenerated_def emptyStore_def sameKeyConfig_def sameKeyStore_def
        generate_eq Let_def newRow_def toString.simps digit_def
        orderByUpdatedDateDesc_def select_id_encryptionKey_def)

theorem generate_idempotent_witness:
  "\<exists>e'. generate sampleEntropy sampleGenerated sameKeyConfig sameKeyStore = Inr (e', sameKeyStore)"
  using generate_idempotent [OF generate_sameKey] .

text \<open>
  Claim C3, at the input where the code departs from it: the legacy key file and the
  environment variable both hold \<^verbatim>\<open>k\<close> and the store is empty. \<^verbatim>\<open>generate\<close> tests each
  candidate against the keys read in step 3 only, so it saves \<^verbatim>\<open>k\<close> twice, as the rows
  \<^verbatim>\<open>1\<close> and \<^verbatim>\<open>2\<close>.
\<close>
theorem generate_admits_equal_keys:
  "generate sampleEntropy sampleGenerated
     \<lparr>FLOWISE_SECRETKEY_OVERWRITE = Some ''k'', encryptionKeyFile = Some ''k''\<rparr> emptyStore
   = Inr (\<lparr>p_id = Some ''id-b'', p_name = None, p_encryptionKey = Some ''k'',
           p_updatedDate = None\<rparr>,
          \<lparr>encryption =
             [\<lparr>e_id = ''id-a'', e_name = ''1'', e_encryptionKey = ''k'', e_updatedDate = 1\<rparr>,
              \<lparr>e_id = ''id-b'', e_name = ''2'', e_encryptionKey = ''k'', e_updatedDate = 2\<rparr>],
           credential = [], encryption_credential = []\<rparr>)"
  by (simp add: sampleGenerated_def emptyStore_def generate_eq Let_def newRow_def
        toString.simps digit_def orderByUpdatedDateDesc_def select_id_encryptionKey_def)

section \<open>resync on a store without keys\<close>

lemma resyncCredentials_no_keys: "resyncCredentials p [] cs st = st"
  by (induction cs arbitrary: st) simp_all

text \<open>
  Claim C10. When the table of keys is empty, \<^verbatim>\<open>resync\<close> returns the store it was given:
  no flag and no row of \<^verbatim>\<open>encryption_credential\<close> changes, and no credential is marked
  lost.
\<close>
theorem resync_no_keys: "encryption st = [] \<Longrightarrow> resync p st = st"
  by (simp add: resync_def resyncCredentials_no_keys)

theorem resync_no_keys_witness:
  "encryption keylessStore = [] \<and> resync colonCipher keylessStore = keylessStore"
proof -
  have h: "encryption keylessStore = []" by (simp add: keylessStore_def)
  show ?thesis using h resync_no_keys [OF h, of colonCipher] by simp
qed

section \<open>get for a credential\<close>

lemma set_leftJoin:
  "set (leftJoin xs ys on) =
     {(x, Some y) | x y. x \<in> set xs \<and> y \<in> set ys \<and> on x y} \<union>
     {(x, None) | x. x \<in> set xs \<and> (\<forall>y\<in>set ys. \<not> on x y)}"
proof -
  define g where "g x = (case filter (on x) ys of [] \<Rightarrow> [(x, None)]
                         | ms \<Rightarrow> map (\<lambda>y. (x, Some y)) ms)" for x
  have row: "set (g x) =
      {(x, Some y) | y. y \<in> set ys \<and> on x y} \<union>
      (if \<forall>y\<in>set ys. \<not> on x y then {(x, None)} else {})" for x
  proof (cases "filter (on x) ys")
    case Nil
    then have "\<forall>y\<in>set ys. \<not> on x y" by (simp add: filter_empty_conv)
    with Nil show ?thesis by (auto simp: g_def)
  next
    case (Cons a as)
    then have "a \<in> set (filter (on x) ys)" by simp
    then have ex: "\<not> (\<forall>y\<in>set ys. \<not> on x y)" by auto
    have "g x = map (\<lambda>y. (x, Some y)) (filter (on x) ys)"
      using Cons by (simp add: g_def)
    then have "set (g x) = {(x, Some y) | y. y \<in> set ys \<and> on x y}" by auto
    with ex show ?thesis by auto
  qed
  have "leftJoin xs ys on = concat (map g xs)"
    unfolding leftJoin_def g_def ..
  then have "set (leftJoin xs ys on) = (\<Union>x\<in>set xs. set (g x))" by simp
  also have "\<dots> = {(x, Some y) | x y. x \<in> set xs \<and> y \<in> set ys \<and> on x y} \<union>
     {(x, None) | x. x \<in> set xs \<and> (\<forall>y\<in>set ys. \<not> on x y)}"
    unfolding row by (auto split: if_splits)
  finally show ?thesis .
qed

lemma leftJoin_Some:
  "(x, Some y) \<in> set (leftJoin xs ys on) \<longleftrightarrow> x \<in> set xs \<and> y \<in> set ys \<and> on x y"
  unfolding set_leftJoin by blast

lemma getMany_subset: "set (getMany rs) \<subseteq> set rs"
  by (induction rs rule: getMany.induct) auto

lemma getMany_ids: "e_id ` set (getMany rs) = e_id ` set rs"
proof (induction rs rule: getMany.induct)
  case 1
  show ?case by simp
next
  case (2 r rs)
  have "e_id ` set (r # rs) = insert (e_id r) (e_id ` set (filter (\<lambda>x. e_id x \<noteq> e_id r) rs))"
    by auto
  with 2 show ?case by simp
qed

lemma getMany_distinct: "distinct (map e_id (getMany rs))"
proof (induction rs rule: getMany.induct)
  case 1
  show ?case by simp
next
  case (2 r rs)
  have "e_id r \<notin> e_id ` set (getMany (filter (\<lambda>x. e_id x \<noteq> e_id r) rs))"
    unfolding getMany_ids by auto
  with 2 show ?case by simp
qed

lemma getMany_set:
  assumes "inj_on e_id (set rs)"
  shows "set (getMany rs) = set rs"
proof
  show "set (getMany rs) \<subseteq> set rs" by (rule getMany_subset)
  show "set rs \<subseteq> set (getMany rs)"
  proof
    fix x assume x: "x \<in> set rs"
    then have "e_id x \<in> e_id ` set (getMany rs)" unfolding getMany_ids by simp
    then obtain y where y: "y \<in> set (getMany rs)" "e_id y = e_id x" by auto
    with getMany_subset have "y \<in> set rs" by auto
    with assms x y(2) have "y = x" by (auto dest: inj_onD)
    with y(1) show "x \<in> set (getMany rs)" by simp
  qed
qed

lemma encryptionsOfCredential_set:
  assumes "c_id c \<in> c_id ` set (credential st)" and "distinct (map e_id (encryption st))"
  shows "set (encryptionsOfCredential (c_id c) st) = associatedKeys st c"
proof -
  let ?rows = "map (\<lambda>((e, _), _). e)
     (filter (\<lambda>(_, c'). case c' of None \<Rightarrow> False | Some c'' \<Rightarrow> c_id c'' = c_id c)
        (leftJoin (leftJoin (encryption st) (encryption_credential st)
                     (\<lambda>e ec. ec_encryptionId ec = e_id e))
                  (credential st)
                  (\<lambda>(e, ec) c. case ec of None \<Rightarrow> False | Some r \<Rightarrow> ec_credentialId r = c_id c)))"
  have rows: "set ?rows = associatedKeys st c"
  proof (intro set_eqI iffI)
    fix x assume "x \<in> set ?rows"
    then obtain ec c' where "((x, ec), Some c') \<in> set (leftJoin (leftJoin (encryption st) (encryption_credential st)
                     (\<lambda>e ec. ec_encryptionId ec = e_id e))
                  (credential st)
                  (\<lambda>(e, ec) c. case ec of None \<Rightarrow> False | Some r \<Rightarrow> ec_credentialId r = c_id c))"
        and c': "c_id c' = c_id c"
      by (auto split: option.splits)
    then have j: "(x, ec) \<in> set (leftJoin (encryption st) (encryption_credential st)
                     (\<lambda>e ec. ec_encryptionId ec = e_id e))"
        and m: "case ec of None \<Rightarrow> False | Some r \<Rightarrow> ec_credentialId r = c_id c'"
      by (auto simp: leftJoin_Some)
    from m obtain r where r: "ec = Some r" "ec_credentialId r = c_id c'"
      by (cases ec) auto
    from j r(1) have "x \<in> set (encryption st)" "r \<in> set (encryption_credential st)"
        "ec_encryptionId r = e_id x"
      by (auto simp: leftJoin_Some)
    with r(2) c' show "x \<in> associatedKeys st c"
      unfolding associatedKeys_def by auto
  next
    fix x assume "x \<in> associatedKeys st c"
    then obtain r where x: "x \<in> set (encryption st)" and r: "r \<in> set (encryption_credential st)"
        "ec_encryptionId r = e_id x" "ec_credentialId r = c_id c"
      unfolding associatedKeys_def by auto
    from assms(1) obtain c' where c': "c' \<in> set (credential st)" "c_id c' = c_id c" by auto
    from x r(1,2) have "(x, Some r) \<in> set (leftJoin (encryption st) (encryption_credential st)
                     (\<lambda>e ec. ec_encryptionId ec = e_id e))"
      by (simp add: leftJoin_Some)
    with c' r(3) have "((x, Some r), Some c') \<in> set (leftJoin (leftJoin (encryption st) (encryption_credential st)
                     (\<lambda>e ec. ec_encryptionId ec = e_id e))
                  (credential st)
                  (\<lambda>(e, ec) c. case ec of None \<Rightarrow> False | Some r \<Rightarrow> ec_credentialId r = c_id c))"
      by (simp add: leftJoin_Some)
    with c'(2) show "x \<in> set ?rows" by force
  qed
  have "inj_on e_id (set (encryption st))" using assms(2) by (simp add: distinct_map)
  moreover have "set ?rows \<subseteq> set (encryption st)" unfolding rows associatedKeys_def by auto
  ultimately have "inj_on e_id (set ?rows)" by (rule inj_on_subset)
  then have "set (getMany ?rows) = set ?rows" by (rule getMany_set)
  then show ?thesis unfolding encryptionsOfCredential_def Let_def rows .
qed

lemma encryptionsOfCredential_length:
  assumes "c_id c \<in> c_id ` set (credential st)" and "distinct (map e_id (encryption st))"
  shows "length (encryptionsOfCredential (c_id c) st) = card (associatedKeys st c)"
proof -
  have "distinct (map e_id (encryptionsOfCredential (c_id c) st))"
    unfolding encryptionsOfCredential_def Let_def by (rule getMany_distinct)
  then have "distinct (encryptionsOfCredential (c_id c) st)" by (simp add: distinct_map)
  then have "card (set (encryptionsOfCredential (c_id c) st)) = length (encryptionsOfCredential (c_id c) st)"
    by (rule distinct_card)
  then show ?thesis unfolding encryptionsOfCredential_set [OF assms] by simp
qed

text \<open>
  Claim C4. For a credential of the table \<^verbatim>\<open>credential\<close>, in a store whose keys have
  distinct identifiers, \<^verbatim>\<open>get(credential)\<close> goes by the number of keys associated with it:
  with none it throws the error whose message ends in \<^verbatim>\<open>'s encryption is lost\<close>, with exactly
  one it returns that key, and with more than one it throws the error whose message ends in
  \<^verbatim>\<open>have multiple encryptions\<close> and returns none of them.
\<close>
theorem get_trichotomy:
  assumes "c_id c \<in> c_id ` set (credential st)" and "distinct (map e_id (encryption st))"
  shows "(associatedKeys st c = {} \<longrightarrow>
            get st (Some c) = Inl (InternalFlowiseError 500
              (''Error: encryptionService.get - credentialId: '' @ c_id c @ [CHR 0x27] @
               ''s encryption is lost''))) \<and>
         (\<forall>k. associatedKeys st c = {k} \<longrightarrow> get st (Some c) = Inr (entity k)) \<and>
         (1 < card (associatedKeys st c) \<longrightarrow>
            get st (Some c) = Inl (InternalFlowiseError 500
              (''Error: encryptionService.get - credentialId: '' @ c_id c @
               '' have multiple encryptions'')))"
proof (intro conjI allI impI)
  note len = encryptionsOfCredential_length [OF assms]
  note set = encryptionsOfCredential_set [OF assms]
  {
    assume "associatedKeys st c = {}"
    with len have "length (encryptionsOfCredential (c_id c) st) = 0" by simp
    then show "get st (Some c) = Inl (InternalFlowiseError 500
              (''Error: encryptionService.get - credentialId: '' @ c_id c @ [CHR 0x27] @
               ''s encryption is lost''))"
      by (simp add: get_def wrapError_def INTERNAL_SERVER_ERROR_def)
  }
  {
    fix k assume k: "associatedKeys st c = {k}"
    with len have "length (encryptionsOfCredential (c_id c) st) = 1" by simp
    then obtain x where x: "encryptionsOfCredential (c_id c) st = [x]"
      by (cases "encryptionsOfCredential (c_id c) st") auto
    with set k have "x = k" by auto
    with x show "get st (Some c) = Inr (entity k)"
      by (simp add: get_def wrapError_def)
  }
  {
    assume "1 < card (associatedKeys st c)"
    with len have "1 < length (encryptionsOfCredential (c_id c) st)" by simp
    then show "get st (Some c) = Inl (InternalFlowiseError 500
              (''Error: encryptionService.get - credentialId: '' @ c_id c @
               '' have multiple encryptions''))"
      by (simp add: get_def wrapError_def INTERNAL_SERVER_ERROR_def)
  }
qed

theorem get_trichotomy_witness:
  "get keylessStore
     (Some \<lparr>c_id = ''c1'', c_encryptedData = ''s1:hello'', c_isEncryptionKeyLost = False\<rparr>)
     = Inl (InternalFlowiseError 500
         (''Error: encryptionService.get - credentialId: c1'' @ [CHR 0x27] @
          ''s encryption is lost'')) \<and>
   get twoKeyStore
     (Some \<lparr>c_id = ''c1'', c_encryptedData = ''s2:hello'', c_isEncryptionKeyLost = True\<rparr>)
     = Inr \<lparr>p_id = Some ''k1'', p_name = Some ''1'', p_encryptionKey = Some ''s1'',
            p_updatedDate = Some 5\<rparr> \<and>
   get multiRowStore
     (Some \<lparr>c_id = ''c1'', c_encryptedData = ''s1:hello'', c_isEncryptionKeyLost = False\<rparr>)
     = Inl (InternalFlowiseError 500
         ''Error: encryptionService.get - credentialId: c1 have multiple encryptions'')"
proof -
  let ?c0 = "\<lparr>c_id = ''c1'', c_encryptedData = ''s1:hello'', c_isEncryptionKeyLost = False\<rparr>"
  let ?c1 = "\<lparr>c_id = ''c1'', c_encryptedData = ''s2:hello'', c_isEncryptionKeyLost = True\<rparr>"
  let ?k1 = "\<lparr>e_id = ''k1'', e_name = ''1'', e_encryptionKey = ''s1'', e_updatedDate = 5\<rparr>"
  let ?k2 = "\<lparr>e_id = ''k2'', e_name = ''2'', e_encryptionKey = ''s2'', e_updatedDate = 7\<rparr>"
  have a0: "associatedKeys keylessStore ?c0 = {}"
    by (simp add: associatedKeys_def keylessStore_def)
  have a1: "associatedKeys twoKeyStore ?c1 = {?k1}"
    by (auto simp: associatedKeys_def twoKeyStore_def)
  have "associatedKeys multiRowStore ?c0 = {?k1, ?k2}"
    by (auto simp: associatedKeys_def multiRowStore_def)
  then have a2: "1 < card (associatedKeys multiRowStore ?c0)" by simp
  have "get keylessStore (Some ?c0) = Inl (InternalFlowiseError 500
         (''Error: encryptionService.get - credentialId: c1'' @ [CHR 0x27] @
          ''s encryption is lost''))"
    using get_trichotomy [of ?c0 keylessStore] a0 by (simp add: keylessStore_def)
  moreover have "get twoKeyStore (Some ?c1) = Inr (entity ?k1)"
    using get_trichotomy [of ?c1 twoKeyStore] a1 by (simp add: twoKeyStore_def)
  moreover have "get multiRowStore (Some ?c0) = Inl (InternalFlowiseError 500
         ''Error: encryptionService.get - credentialId: c1 have multiple encryptions'')"
    using get_trichotomy [of ?c0 multiRowStore] a2 by (simp add: multiRowStore_def)
  ultimately show ?thesis by (simp add: entity_def)
qed

section \<open>encrypt and decrypt\<close>

lemma hd_orderByUpdatedDateDesc:
  assumes "rows \<noteq> []"
  shows "hd (orderByUpdatedDateDesc rows) \<in> set rows"
    and "\<forall>r\<in>set rows. e_updatedDate r \<le> e_updatedDate (hd (orderByUpdatedDateDesc rows))"
proof -
  let ?f = "\<lambda>r. - int (e_updatedDate r)"
  let ?ys = "sort_key ?f rows"
  have "length ?ys = length rows" by simp
  with assms obtain y ys' where ys: "?ys = y # ys'" by (cases ?ys) auto
  have set: "set ?ys = set rows" by simp
  have "sorted (map ?f ?ys)" by (rule sorted_sort_key)
  then have le: "\<forall>z\<in>set ys'. ?f y \<le> ?f z" unfolding ys by simp
  show "hd (orderByUpdatedDateDesc rows) \<in> set rows"
    unfolding orderByUpdatedDateDesc_def using set ys by auto
  show "\<forall>r\<in>set rows. e_updatedDate r \<le> e_updatedDate (hd (orderByUpdatedDateDesc rows))"
  proof
    fix r assume "r \<in> set rows"
    then have "r \<in> set (y # ys')" using set ys by simp
    then have "?f y \<le> ?f r" using le by auto
    then show "e_updatedDate r \<le> e_updatedDate (hd (orderByUpdatedDateDesc rows))"
      unfolding orderByUpdatedDateDesc_def ys by simp
  qed
qed

text \<open>
  Claim C8. \<^verbatim>\<open>encrypt\<close> throws when the table of keys is empty. Otherwise there is a row
  of the table whose \<^verbatim>\<open>updatedDate\<close> no other row exceeds, \<^verbatim>\<open>get()\<close> returns its identifier
  and key, and \<^verbatim>\<open>encrypt\<close> encrypts the serialised object with that key and returns the
  same object of \<^verbatim>\<open>get()\<close> together with the ciphertext.
\<close>
theorem encrypt_uses_latest_key:
  "(encryption st = [] \<longrightarrow>
      encrypt p salt st v = Inl (InternalFlowiseError 500
        ''Error: encryptionService.encrypt - Error: encryptionService.get - No encryption key available'')) \<and>
   (encryption st \<noteq> [] \<longrightarrow>
      (\<exists>r\<in>set (encryption st).
         (\<forall>r'\<in>set (encryption st). e_updatedDate r' \<le> e_updatedDate r) \<and>
         get st None = Inr (select_id_encryptionKey r) \<and>
         encrypt p salt st v =
           wrapError ''encrypt''
             (case JSON_stringify p v of
                Inl m \<Rightarrow> Inl (Error m)
              | Inr text1 \<Rightarrow>
                  (case AES_encrypt p salt text1 (Some (e_encryptionKey r)) of
                     Inl m \<Rightarrow> Inl (Error m)
                   | Inr encryptedData \<Rightarrow> Inr (select_id_encryptionKey r, encryptedData)))))"
proof (intro conjI impI)
  assume "encryption st = []"
  then show "encrypt p salt st v = Inl (InternalFlowiseError 500
        ''Error: encryptionService.encrypt - Error: encryptionService.get - No encryption key available'')"
    by (simp add: encrypt_def get_latest_empty wrapError_def INTERNAL_SERVER_ERROR_def)
next
  assume ne: "encryption st \<noteq> []"
  let ?r = "hd (orderByUpdatedDateDesc (encryption st))"
  have "encrypt p salt st v =
           wrapError ''encrypt''
             (case JSON_stringify p v of
                Inl m \<Rightarrow> Inl (Error m)
              | Inr text1 \<Rightarrow>
                  (case AES_encrypt p salt text1 (Some (e_encryptionKey ?r)) of
                     Inl m \<Rightarrow> Inl (Error m)
                   | Inr encryptedData \<Rightarrow> Inr (select_id_encryptionKey ?r, encryptedData)))"
    by (simp add: encrypt_def get_latest_nonempty [OF ne] select_id_encryptionKey_def
          split: sum.splits)
  with hd_orderByUpdatedDateDesc [OF ne] get_latest_nonempty [OF ne]
  show "\<exists>r\<in>set (encryption st).
         (\<forall>r'\<in>set (encryption st). e_updatedDate r' \<le> e_updatedDate r) \<and>
         get st None = Inr (select_id_encryptionKey r) \<and>
         encrypt p salt st v =
           wrapError ''encrypt''
             (case JSON_stringify p v of
                Inl m \<Rightarrow> Inl (Error m)
              | Inr text1 \<Rightarrow>
                  (case AES_encrypt p salt text1 (Some (e_encryptionKey r)) of
                     Inl m \<Rightarrow> Inl (Error m)
                   | Inr encryptedData \<Rightarrow> Inr (select_id_encryptionKey r, encryptedData)))"
    by blast
qed

theorem encrypt_uses_latest_key_witness:
  "encrypt colonCipher [] emptyStore ''hello'' = Inl (InternalFlowiseError 500
        ''Error: encryptionService.encrypt - Error: encryptionService.get - No encryption key available'') \<and>
   encrypt colonCipher [] twoKeyStore ''hello'' =
     Inr (\<lparr>p_id = Some ''k2'', p_name = None, p_encryptionKey = Some ''s2'', p_updatedDate = None\<rparr>,
          ''s2:hello'')"
proof -
  have 1: "encrypt colonCipher [] emptyStore ''hello'' = Inl (InternalFlowiseError 500
        ''Error: encryptionService.encrypt - Error: encryptionService.get - No encryption key available'')"
    using encrypt_uses_latest_key [of emptyStore colonCipher "[]" "''hello''"]
    by (simp add: emptyStore_def)
  have "encryption twoKeyStore \<noteq> []" by (simp add: twoKeyStore_def)
  with encrypt_uses_latest_key [of twoKeyStore colonCipher "[]" "''hello''"]
  obtain r where r: "r \<in> set (encryption twoKeyStore)"
      "\<forall>r'\<in>set (encryption twoKeyStore). e_updatedDate r' \<le> e_updatedDate r"
      "encrypt colonCipher [] twoKeyStore ''hello'' =
           wrapError ''encrypt''
             (case JSON_stringify colonCipher ''hello'' of
                Inl m \<Rightarrow> Inl (Error m)
              | Inr text1 \<Rightarrow>
                  (case AES_encrypt colonCipher [] text1 (Some (e_encryptionKey r)) of
                     Inl m \<Rightarrow> Inl (Error m)
                   | Inr encryptedData \<Rightarrow> Inr (select_id_encryptionKey r, encryptedData)))"
    by blast
  from r(1,2) have "r = \<lparr>e_id = ''k2'', e_name = ''2'', e_encryptionKey = ''s2'', e_updatedDate = 7\<rparr>"
    by (auto simp: twoKeyStore_def)
  with r(3) have "encrypt colonCipher [] twoKeyStore ''hello'' =
     Inr (\<lparr>p_id = Some ''k2'', p_name = None, p_encryptionKey = Some ''s2'', p_updatedDate = None\<rparr>,
          ''s2:hello'')"
    by (simp add: colonCipher_def wrapError_def select_id_encryptionKey_def)
  with 1 show ?thesis by simp
qed

lemma cipherRoundTrip_colonCipher: "cipherRoundTrip colonCipher"
  by (auto simp: cipherRoundTrip_def colonCipher_def split: option.splits)

lemma codecRoundTrip_colonCipher: "v \<noteq> [] \<Longrightarrow> codecRoundTrip colonCipher v"
  by (simp add: codecRoundTrip_def colonCipher_def)

text \<open>
  Claim C5, as stated, at an object where it fails: \<^verbatim>\<open>{n: NaN}\<close> is serialised as
  \<^verbatim>\<open>{"n":null}\<close>, so \<^verbatim>\<open>decrypt\<close>, given the ciphertext and the key \<^verbatim>\<open>encrypt\<close> has returned,
  returns \<^verbatim>\<open>{n: null}\<close>, which is not the object encrypted.
\<close>
theorem round_trip_loses_NaN:
  \<open>encrypt nObjectPrimitives [] twoKeyStore (NObject JSNaN) =
     Inr (\<lparr>p_id = Some ''k2'', p_name = None, p_encryptionKey = Some ''s2'', p_updatedDate = None\<rparr>,
          ''s2:{"n":null}'') \<and>
   decrypt nObjectPrimitives twoKeyStore
     \<lparr>c_id = ''c9'', c_encryptedData = ''s2:{"n":null}'', c_isEncryptionKeyLost = False\<rparr>
     (Some \<lparr>p_id = Some ''k2'', p_name = None, p_encryptionKey = Some ''s2'', p_updatedDate = None\<rparr>)
   = Inr (\<lparr>p_id = Some ''k2'', p_name = None, p_encryptionKey = Some ''s2'', p_updatedDate = None\<rparr>,
          NObject JSNull) \<and>
   NObject JSNull \<noteq> NObject JSNaN\<close>
  by (simp add: encrypt_def decrypt_def get_def twoKeyStore_def orderByUpdatedDateDesc_def
        wrapError_def nObjectPrimitives_def colonCipher_def select_id_encryptionKey_def)

text \<open>
  Claim C5, amended. When the cipher decrypts what it encrypts, for every object that the
  codec parses back from its own serialisation, \<^verbatim>\<open>decrypt\<close>, given a credential that holds the
  ciphertext \<^verbatim>\<open>encrypt\<close> has returned for the object and the key \<^verbatim>\<open>encrypt\<close> has returned
  with it, returns that key and an object equal to the first one.
\<close>
theorem encrypt_decrypt_round_trip:
  assumes "cipherRoundTrip p" and "codecRoundTrip p v"
    and "encrypt p salt st v = Inr (k, encryptedData)"
  shows "decrypt p st' (c\<lparr>c_encryptedData := encryptedData\<rparr>) (Some k) = Inr (k, v)"
proof -
  from assms(3) obtain text1 where
    t: "JSON_stringify p v = Inr text1" and
    e: "AES_encrypt p salt text1 (p_encryptionKey k) = Inr encryptedData"
    by (auto simp: encrypt_def wrapError_def split: sum.splits)
  from assms(1) e have "AES_decrypt p encryptedData (p_encryptionKey k) = Inr text1"
    by (simp add: cipherRoundTrip_def)
  moreover from assms(2) t have "JSON_parse p text1 = Inr v"
    by (simp add: codecRoundTrip_def)
  ultimately show ?thesis
    by (simp add: decrypt_def wrapError_def)
qed

lemma encrypt_twoKeyStore:
  "encrypt colonCipher [] twoKeyStore ''hello'' =
     Inr (\<lparr>p_id = Some ''k2'', p_name = None, p_encryptionKey = Some ''s2'', p_updatedDate = None\<rparr>,
          ''s2:hello'')"
  by (simp add: encrypt_def get_def twoKeyStore_def orderByUpdatedDateDesc_def wrapError_def
        colonCipher_def select_id_encryptionKey_def)

theorem encrypt_decrypt_round_trip_witness:
  "decrypt colonCipher emptyStore
     \<lparr>c_id = ''c9'', c_encryptedData = ''s2:hello'', c_isEncryptionKeyLost = False\<rparr>
     (Some \<lparr>p_id = Some ''k2'', p_name = None, p_encryptionKey = Some ''s2'', p_updatedDate = None\<rparr>)
   = Inr (\<lparr>p_id = Some ''k2'', p_name = None, p_encryptionKey = Some ''s2'', p_updatedDate = None\<rparr>,
          ''hello'')"
  using encrypt_decrypt_round_trip [OF cipherRoundTrip_colonCipher
          codecRoundTrip_colonCipher [of "''hello''"] encrypt_twoKeyStore,
          of emptyStore "\<lparr>c_id = ''c9'', c_encryptedData = [], c_isEncryptionKeyLost = False\<rparr>"]
  by simp

section \<open>resync\<close>

lemma decrypt_given_key: "decrypt p st c (Some e) = decrypt p st' c (Some e)"
  by (simp add: decrypt_def)

lemma decryptsWith_state: "decryptsWith p st c e = decryptsWith p st' c e"
  unfolding decryptsWith_def by (simp add: decrypt_given_key [of p st c _ st'])

lemma resyncEncryptions_step:
  "resyncEncryptions p c (e # es) st =
     (if decryptsWith p st c e
      then updateIsEncryptionKeyLost (c_id c) False
             (if length (findByCredentialId (c_id c) st) = 0
              then encryptionCredential_create (e_id e) (c_id c) st
              else if length (findByCredentialId (c_id c) st) = 1
              then updateEncryptionId (e_id e) (c_id c) st
              else st)
      else resyncEncryptions p c es
             (deleteByEncryptionId (e_id e) (c_id c)
                (updateIsEncryptionKeyLost (c_id c) True st)))"
  by (simp add: decryptsWith_def Let_def split: sum.splits)

declare resyncEncryptions.simps(2) [simp del]

lemma find_updateLost [simp]:
  "findByCredentialId cid (updateIsEncryptionKeyLost cid' b st) = findByCredentialId cid st"
  by (simp add: findByCredentialId_def updateIsEncryptionKeyLost_def)

lemma find_delete:
  "findByCredentialId cid (deleteByEncryptionId eid cid' st) =
     (if cid = cid' then filter (\<lambda>r. ec_encryptionId r \<noteq> eid) (findByCredentialId cid st)
      else findByCredentialId cid st)"
  by (auto simp: findByCredentialId_def deleteByEncryptionId_def intro: filter_cong)

lemma find_create:
  "findByCredentialId cid (encryptionCredential_create eid cid' st) =
     (if cid = cid'
      then findByCredentialId cid st @ [\<lparr>ec_encryptionId = eid, ec_credentialId = cid\<rparr>]
      else findByCredentialId cid st)"
  by (simp add: findByCredentialId_def encryptionCredential_create_def)

lemma find_update:
  "findByCredentialId cid (updateEncryptionId eid cid' st) =
     (if cid = cid'
      then map (\<lambda>r. \<lparr>ec_encryptionId = eid, ec_credentialId = cid\<rparr>) (findByCredentialId cid st)
      else findByCredentialId cid st)"
proof -
  have "filter (\<lambda>r. ec_credentialId r = cid)
          (map (\<lambda>r. if ec_credentialId r = cid' then r\<lparr>ec_encryptionId := eid\<rparr> else r) rs) =
        (if cid = cid'
         then map (\<lambda>r. \<lparr>ec_encryptionId = eid, ec_credentialId = cid\<rparr>)
                (filter (\<lambda>r. ec_credentialId r = cid) rs)
         else filter (\<lambda>r. ec_credentialId r = cid) rs)" for rs
    by (induction rs) auto
  from this [of "encryption_credential st"] show ?thesis
    by (simp add: findByCredentialId_def updateEncryptionId_def)
qed

lemma records_updateLost:
  "recordsOf cid (updateIsEncryptionKeyLost cid' b st) =
     (if cid = cid' then map (\<lambda>x. x\<lparr>c_isEncryptionKeyLost := b\<rparr>) (recordsOf cid st)
      else recordsOf cid st)"
proof -
  have "filter (\<lambda>x. c_id x = cid)
          (map (\<lambda>c. if c_id c = cid' then c\<lparr>c_isEncryptionKeyLost := b\<rparr> else c) cs) =
        (if cid = cid' then map (\<lambda>x. x\<lparr>c_isEncryptionKeyLost := b\<rparr>) (filter (\<lambda>x. c_id x = cid) cs)
         else filter (\<lambda>x. c_id x = cid) cs)" for cs
    by (induction cs) auto
  from this [of "credential st"] show ?thesis
    by (simp add: recordsOf_def updateIsEncryptionKeyLost_def)
qed

lemma records_rows [simp]:
  "recordsOf cid (deleteByEncryptionId eid cid' st) = recordsOf cid st"
  "recordsOf cid (encryptionCredential_create eid cid' st) = recordsOf cid st"
  "recordsOf cid (updateEncryptionId eid cid' st) = recordsOf cid st"
  by (simp_all add: recordsOf_def deleteByEncryptionId_def encryptionCredential_create_def
        updateEncryptionId_def)

lemma encryption_helpers [simp]:
  "encryption (deleteByEncryptionId eid cid' st) = encryption st"
  "encryption (encryptionCredential_create eid cid' st) = encryption st"
  "encryption (updateEncryptionId eid cid' st) = encryption st"
  "encryption (updateIsEncryptionKeyLost cid' b st) = encryption st"
  by (simp_all add: deleteByEncryptionId_def encryptionCredential_create_def
        updateEncryptionId_def updateIsEncryptionKeyLost_def)

text \<open>The loop for one credential leaves the rows and the records of another one alone.\<close>
lemma resyncEncryptions_frame:
  assumes "cid \<noteq> c_id c"
  shows "findByCredentialId cid (resyncEncryptions p c es st) = findByCredentialId cid st \<and>
         recordsOf cid (resyncEncryptions p c es st) = recordsOf cid st"
proof (induction es arbitrary: st)
  case Nil
  show ?case by simp
next
  case (Cons e es)
  show ?case
    unfolding resyncEncryptions_step using assms
    by (simp add: Cons.IH find_delete find_create find_update records_updateLost)
qed

lemma resyncCredentials_frame:
  assumes "cid \<notin> c_id ` set cs"
  shows "findByCredentialId cid (resyncCredentials p es cs st) = findByCredentialId cid st \<and>
         recordsOf cid (resyncCredentials p es cs st) = recordsOf cid st"
  using assms
proof (induction cs arbitrary: st)
  case Nil
  show ?case by simp
next
  case (Cons c cs)
  then have "cid \<noteq> c_id c" "cid \<notin> c_id ` set cs" by auto
  then show ?case
    by (simp add: Cons.IH resyncEncryptions_frame)
qed

lemma resyncCredentials_append:
  "resyncCredentials p es (xs @ ys) st = resyncCredentials p es ys (resyncCredentials p es xs st)"
  by (induction xs arbitrary: st) simp_all





text \<open>The loop for a credential that no key decrypts.\<close>
lemma resyncEncryptions_lost:
  assumes "\<forall>k'\<in>set es. \<not> decryptsWith p st0 c k'" and "es \<noteq> []"
  shows "findByCredentialId (c_id c) (resyncEncryptions p c es st) =
           filter (\<lambda>r. ec_encryptionId r \<notin> e_id ` set es) (findByCredentialId (c_id c) st) \<and>
         recordsOf (c_id c) (resyncEncryptions p c es st) =
           map (\<lambda>x. x\<lparr>c_isEncryptionKeyLost := True\<rparr>) (recordsOf (c_id c) st)"
  using assms
proof (induction es arbitrary: st)
  case Nil
  then show ?case by simp
next
  case (Cons a es)
  have d: "\<not> decryptsWith p st c a" using Cons.prems(1) decryptsWith_state by fastforce
  show ?case
  proof (cases "es = []")
    case True
    then show ?thesis using d
      by (simp add: resyncEncryptions_step find_delete records_updateLost)
  next
    case False
    from Cons.prems(1) have "\<forall>k'\<in>set es. \<not> decryptsWith p st0 c k'" by simp
    note IH = Cons.IH [OF this False]
    have "filter (\<lambda>r. ec_encryptionId r \<notin> e_id ` set es) (filter (\<lambda>r. ec_encryptionId r \<noteq> e_id a) rs)
        = filter (\<lambda>r. ec_encryptionId r \<notin> e_id ` set (a # es)) rs" for rs :: "EncryptionCredential list"
      by (induction rs) auto
    then show ?thesis using d
      by (simp add: resyncEncryptions_step IH find_delete records_updateLost comp_def)
  qed
qed

lemma resync_split:
  assumes "distinct (map c_id (credential st))" and "c \<in> set (credential st)"
  obtains cs1 cs2 where "credential st = cs1 @ c # cs2"
    and "c_id c \<notin> c_id ` set cs1" and "c_id c \<notin> c_id ` set cs2"
proof -
  from assms(2) obtain cs1 cs2 where split: "credential st = cs1 @ c # cs2"
    by (auto dest: split_list)
  with assms(1) have "c_id c \<notin> c_id ` set cs1" "c_id c \<notin> c_id ` set cs2" by auto
  with split show thesis by (rule that)
qed

lemma records_member:
  "c \<in> set (credential st) \<Longrightarrow> c \<in> set (recordsOf (c_id c) st)"
  "x \<in> set (credential st) \<Longrightarrow> c_id x = cid \<Longrightarrow> x \<in> set (recordsOf cid st)"
  "x \<in> set (recordsOf cid st) \<Longrightarrow> x \<in> set (credential st)"
  by (simp_all add: recordsOf_def)

lemma decryptsWith_colonCipher:
  "decryptsWith colonCipher st c e \<longleftrightarrow>
     take (length (e_encryptionKey e) + 1) (c_encryptedData c) = e_encryptionKey e @ '':'' \<and>
     drop (length (e_encryptionKey e) + 1) (c_encryptedData c) \<noteq> []"
  by (simp add: decryptsWith_def decrypt_def colonCipher_def entity_def wrapError_def)






text \<open>
  Claim C2, as stated, at a store where it fails: the table of keys is empty, so no key
  decrypts the credential \<^verbatim>\<open>c1\<close>; after \<^verbatim>\<open>resync\<close> its flag is still false and its row is
  still there.
\<close>
theorem resync_without_keys_marks_nothing:
  "encryption keylessStore = [] \<and>
   credential (resync colonCipher keylessStore) =
     [\<lparr>c_id = ''c1'', c_encryptedData = ''s1:hello'', c_isEncryptionKeyLost = False\<rparr>] \<and>
   findByCredentialId ''c1'' (resync colonCipher keylessStore) =
     [\<lparr>ec_encryptionId = ''k1'', ec_credentialId = ''c1''\<rparr>]"
  by (simp add: keylessStore_def resync_def findByCredentialId_def)

text \<open>
  Claim C2, amended. In a store whose credentials have distinct identifiers and whose table
  of keys is not empty, take a credential that no key of the store decrypts. After
  \<^verbatim>\<open>resync\<close> its flag \<^verbatim>\<open>isEncryptionKeyLost\<close> is true, and its rows of
  \<^verbatim>\<open>encryption_credential\<close> are those it had that point at no key of the store: it has no
  row when all its rows pointed at keys of the store.
\<close>
theorem resync_lost_detection:
  assumes "distinct (map c_id (credential st))" and "c \<in> set (credential st)"
    and "encryption st \<noteq> []"
    and "\<forall>k\<in>set (encryption st). \<not> decryptsWith p st c k"
  shows "findByCredentialId (c_id c) (resync p st) =
           filter (\<lambda>r. ec_encryptionId r \<notin> e_id ` set (encryption st))
             (findByCredentialId (c_id c) st) \<and>
         ((\<forall>r\<in>set (findByCredentialId (c_id c) st).
              ec_encryptionId r \<in> e_id ` set (encryption st)) \<longrightarrow>
            findByCredentialId (c_id c) (resync p st) = []) \<and>
         c\<lparr>c_isEncryptionKeyLost := True\<rparr> \<in> set (credential (resync p st)) \<and>
         (\<forall>x\<in>set (credential (resync p st)). c_id x = c_id c \<longrightarrow> c_isEncryptionKeyLost x)"
proof -
  from assms(1,2) obtain cs1 cs2 where split: "credential st = cs1 @ c # cs2"
    and cs1: "c_id c \<notin> c_id ` set cs1" and cs2: "c_id c \<notin> c_id ` set cs2"
    by (rule resync_split)
  let ?es = "encryption st"
  let ?s1 = "resyncCredentials p ?es cs1 st"
  let ?s2 = "resyncEncryptions p c ?es ?s1"
  have unfold: "resync p st = resyncCredentials p ?es cs2 ?s2"
    by (simp add: resync_def split resyncCredentials_append)
  note f1 = resyncCredentials_frame [OF cs1, of p ?es st]
  note l = resyncEncryptions_lost [OF assms(4,3), of ?s1]
  note f2 = resyncCredentials_frame [OF cs2, of p ?es ?s2]
  have rows: "findByCredentialId (c_id c) (resync p st) =
      filter (\<lambda>r. ec_encryptionId r \<notin> e_id ` set ?es) (findByCredentialId (c_id c) st)"
    unfolding unfold using f2 l f1 by simp
  have none: "(\<forall>r\<in>set (findByCredentialId (c_id c) st). ec_encryptionId r \<in> e_id ` set ?es) \<longrightarrow>
      findByCredentialId (c_id c) (resync p st) = []"
    unfolding rows by (simp add: filter_empty_conv)
  have recs: "recordsOf (c_id c) (resync p st) =
      map (\<lambda>x. x\<lparr>c_isEncryptionKeyLost := True\<rparr>) (recordsOf (c_id c) st)"
    unfolding unfold using f2 l f1 by simp
  have "c\<lparr>c_isEncryptionKeyLost := True\<rparr> \<in> set (recordsOf (c_id c) (resync p st))"
    unfolding recs using records_member(1) [OF assms(2)] by simp
  then have flag: "c\<lparr>c_isEncryptionKeyLost := True\<rparr> \<in> set (credential (resync p st))"
    by (rule records_member(3))
  have all: "\<forall>x\<in>set (credential (resync p st)). c_id x = c_id c \<longrightarrow> c_isEncryptionKeyLost x"
  proof (intro ballI impI)
    fix x assume "x \<in> set (credential (resync p st))" "c_id x = c_id c"
    then have "x \<in> set (recordsOf (c_id c) (resync p st))" by (rule records_member(2))
    then show "c_isEncryptionKeyLost x" unfolding recs by auto
  qed
  from rows none flag all show ?thesis by blast
qed

theorem resync_lost_detection_witness:
  "findByCredentialId ''c1'' (resync colonCipher lostStore) = [] \<and>
   \<lparr>c_id = ''c1'', c_encryptedData = ''s3:hello'', c_isEncryptionKeyLost = True\<rparr>
     \<in> set (credential (resync colonCipher lostStore))"
  using resync_lost_detection [of lostStore
          "\<lparr>c_id = ''c1'', c_encryptedData = ''s3:hello'', c_isEncryptionKeyLost = False\<rparr>"
          colonCipher]
  by (simp add: lostStore_def decryptsWith_colonCipher findByCredentialId_def)

end
